theory Spec2Isabelle
  imports Main "HOL-Library.AList"
begin

section \<open>The host's expression tree, as \<^verbatim>\<open>src/utils.c\<close> reads it\<close>

text \<open>
  \<^verbatim>\<open>utils.c\<close> works on the host runtime's \<^verbatim>\<open>SEXP\<close> values. The model keeps what
  the file observes of them: the type tag, the car and cdr of a cons cell, the
  payload of logical and string vectors, the length of every vector, and the
  attribute list.
\<close>

datatype sexptype =
    NILSXP | SYMSXP | LISTSXP | LANGSXP | CHARSXP | LGLSXP | INTSXP | REALSXP
  | CPLXSXP | STRSXP | RAWSXP | VECSXP | ENVSXP

text \<open>The two kinds of cons cell: a call (\<^verbatim>\<open>LANGSXP\<close>) and a pairlist (\<^verbatim>\<open>LISTSXP\<close>).\<close>

datatype cellkind = LANG | LIST

text \<open>The atomic vectors whose payload \<^verbatim>\<open>utils.c\<close> never reads.\<close>

datatype atomkind = IntK | RealK | CplxK | RawK

datatype sexp =
    Nil
    \<comment> \<open>\<^verbatim>\<open>R_NilValue\<close>\<close>
  | Sym string
    \<comment> \<open>a symbol and its print name\<close>
  | Chr string
    \<comment> \<open>a \<^verbatim>\<open>CHARSXP\<close>: one string\<close>
  | Cons cellkind sexp sexp "(sexp \<times> sexp) list"
    \<comment> \<open>a cons cell: kind, car, cdr, attributes\<close>
  | Lgl "int list" "(sexp \<times> sexp) list"
    \<comment> \<open>a logical vector: its C \<^verbatim>\<open>int\<close> payload, attributes\<close>
  | Atom atomkind nat "(sexp \<times> sexp) list"
    \<comment> \<open>another atomic vector: kind, length, attributes\<close>
  | Str "string list" "(sexp \<times> sexp) list"
    \<comment> \<open>a character vector: its strings, attributes\<close>
  | Vec "sexp list" "(sexp \<times> sexp) list"
    \<comment> \<open>a generic vector: elements, attributes\<close>
  | Env nat nat
    \<comment> \<open>an environment, opaque: its identity and its number of bindings\<close>

text \<open>
  Errors are values. The first three are the \<^verbatim>\<open>Rf_errorcall\<close>s of the file
  (```x` must be a boolean'', ```x` is not a formula'', ``Invalid formula'');
  \<open>HostFault\<close> is an access that the host's object model does not define (the car
  of a vector, an element past the end, an attribute written on a node that carries
  none).
\<close>

datatype error = TypeError | NotAFormulaError | MalformedFormulaError | HostFault

definition bind_res :: "error + 'a \<Rightarrow> ('a \<Rightarrow> error + 'b) \<Rightarrow> error + 'b" where
  "bind_res m f = (case m of Inl e \<Rightarrow> Inl e | Inr v \<Rightarrow> f v)"

text \<open>C's short-circuit \<^verbatim>\<open>||\<close> over fallible operands.\<close>

definition or_else :: "error + bool \<Rightarrow> error + bool \<Rightarrow> error + bool" where
  "or_else a b = bind_res a (\<lambda>r. if r then Inr True else b)"

subsection \<open>Host accessors\<close>

fun TYPEOF :: "sexp \<Rightarrow> sexptype" where
  "TYPEOF Nil = NILSXP"
| "TYPEOF (Sym n) = SYMSXP"
| "TYPEOF (Chr s) = CHARSXP"
| "TYPEOF (Cons LANG a d at) = LANGSXP"
| "TYPEOF (Cons LIST a d at) = LISTSXP"
| "TYPEOF (Lgl vs at) = LGLSXP"
| "TYPEOF (Atom IntK n at) = INTSXP"
| "TYPEOF (Atom RealK n at) = REALSXP"
| "TYPEOF (Atom CplxK n at) = CPLXSXP"
| "TYPEOF (Atom RawK n at) = RAWSXP"
| "TYPEOF (Str ss at) = STRSXP"
| "TYPEOF (Vec xs at) = VECSXP"
| "TYPEOF (Env e n) = ENVSXP"

text \<open>
  \<^verbatim>\<open>CAR\<close> and \<^verbatim>\<open>CDR\<close> read the first and second slot of a node. On a cons cell
  these are its car and cdr; \<^verbatim>\<open>R_NilValue\<close> is its own car and cdr; the first slot
  of a symbol holds its print name, a \<^verbatim>\<open>CHARSXP\<close> (\<^verbatim>\<open>is_lang\<close> reads it: its guard
  lets symbols through). Every other read is a \<open>HostFault\<close>.
\<close>

fun CAR :: "sexp \<Rightarrow> error + sexp" where
  "CAR Nil = Inr Nil"
| "CAR (Cons k a d at) = Inr a"
| "CAR (Sym n) = Inr (Chr n)"
| "CAR _ = Inl HostFault"

fun CDR :: "sexp \<Rightarrow> error + sexp" where
  "CDR Nil = Inr Nil"
| "CDR (Cons k a d at) = Inr d"
| "CDR _ = Inl HostFault"

definition CADR :: "sexp \<Rightarrow> error + sexp" where
  "CADR x = bind_res (CDR x) CAR"

definition CDDR :: "sexp \<Rightarrow> error + sexp" where
  "CDDR x = bind_res (CDR x) CDR"

definition CDAR :: "sexp \<Rightarrow> error + sexp" where
  "CDAR x = bind_res (CAR x) CDR"

definition CADDR :: "sexp \<Rightarrow> error + sexp" where
  "CADDR x = bind_res (CDDR x) CAR"

text \<open>
  \<^verbatim>\<open>Rf_length\<close>: 0 for \<^verbatim>\<open>R_NilValue\<close>, the number of elements of a vector, the
  number of cells of a cons chain (walked by \<^verbatim>\<open>CDR\<close> until \<^verbatim>\<open>R_NilValue\<close>), the
  number of bindings of an environment, 1 for anything else.
\<close>

fun cells :: "sexp \<Rightarrow> error + nat" where
  "cells Nil = Inr 0"
| "cells (Cons k a d at) = bind_res (cells d) (\<lambda>n. Inr (Suc n))"
| "cells _ = Inl HostFault"

fun Rf_length :: "sexp \<Rightarrow> error + nat" where
  "Rf_length Nil = Inr 0"
| "Rf_length (Cons k a d at) = cells (Cons k a d at)"
| "Rf_length (Lgl vs at) = Inr (length vs)"
| "Rf_length (Atom k n at) = Inr n"
| "Rf_length (Str ss at) = Inr (length ss)"
| "Rf_length (Vec xs at) = Inr (length xs)"
| "Rf_length (Env e n) = Inr n"
| "Rf_length _ = Inr 1"

definition Rf_isNull :: "sexp \<Rightarrow> bool" where
  "Rf_isNull s = (TYPEOF s = NILSXP)"

definition Rf_install :: "string \<Rightarrow> sexp" where
  "Rf_install name = Sym name"

definition Rf_mkString :: "string \<Rightarrow> sexp" where
  "Rf_mkString s = Str [s] []"

definition Rf_lang2 :: "sexp \<Rightarrow> sexp \<Rightarrow> sexp" where
  "Rf_lang2 s t = Cons LANG s (Cons LIST t Nil []) []"

definition R_NamesSymbol :: sexp where
  "R_NamesSymbol = Sym ''names''"

definition R_ClassSymbol :: sexp where
  "R_ClassSymbol = Sym ''class''"

fun ATTRIB :: "sexp \<Rightarrow> (sexp \<times> sexp) list" where
  "ATTRIB (Cons k a d at) = at"
| "ATTRIB (Lgl vs at) = at"
| "ATTRIB (Atom k n at) = at"
| "ATTRIB (Str ss at) = at"
| "ATTRIB (Vec xs at) = at"
| "ATTRIB _ = []"

text \<open>
  Modelled from the spec: the host's attribute getter and setter
  (\<^verbatim>\<open>Rf_getAttrib\<close>, \<^verbatim>\<open>Rf_setAttrib\<close>) are not in the repository. The spec has
  attributes as a side channel of \<open>Call\<close>, \<open>Atomic\<close> and \<open>List\<close> nodes: the getter
  ``returns the names mapping if present, else the absent marker'', the setter
  ``attaches/replaces'' it and returns the updated node. A node of another variant
  carries no attribute, and writing one there is a \<open>HostFault\<close>.
\<close>

definition Rf_getAttrib :: "sexp \<Rightarrow> sexp \<Rightarrow> sexp" where
  "Rf_getAttrib x name = (case map_of (ATTRIB x) name of None \<Rightarrow> Nil | Some v \<Rightarrow> v)"

fun Rf_setAttrib :: "sexp \<Rightarrow> sexp \<Rightarrow> sexp \<Rightarrow> error + sexp" where
  "Rf_setAttrib (Cons k a d at) name val = Inr (Cons k a d (AList.update name val at))"
| "Rf_setAttrib (Lgl vs at) name val = Inr (Lgl vs (AList.update name val at))"
| "Rf_setAttrib (Atom k n at) name val = Inr (Atom k n (AList.update name val at))"
| "Rf_setAttrib (Str ss at) name val = Inr (Str ss (AList.update name val at))"
| "Rf_setAttrib (Vec xs at) name val = Inr (Vec xs (AList.update name val at))"
| "Rf_setAttrib _ name val = Inl HostFault"

section \<open>Formulas\<close>

text \<open>
  \<^verbatim>\<open>is_sym\<close> and \<^verbatim>\<open>is_symbolic\<close> return a C \<^verbatim>\<open>int\<close> (\<open>0\<close> or \<open>1\<close>), the
  functions declared \<^verbatim>\<open>bool\<close> a truth value.
\<close>

fun is_sym :: "sexp \<Rightarrow> string \<Rightarrow> int" where
  "is_sym (Sym n) string = (if n = string then 1 else 0)"
| "is_sym _ string = 0"

definition is_symbolic :: "sexp \<Rightarrow> int" where
  "is_symbolic x = (if TYPEOF x = LANGSXP \<or> TYPEOF x = SYMSXP then 1 else 0)"

definition is_formula :: "sexp \<Rightarrow> error + bool" where
  "is_formula x =
     (if TYPEOF x \<noteq> LANGSXP then Inr False
      else bind_res (CAR x) (\<lambda>head.
        if TYPEOF head \<noteq> SYMSXP then Inr False
        else Inr (is_sym head ''~'' \<noteq> 0 \<or> is_sym head '':='' \<noteq> 0)))"

definition is_fpromise :: "sexp \<Rightarrow> error + bool" where
  "is_fpromise x =
     bind_res (is_formula x) (\<lambda>b.
       if \<not> b then Inr False
       else bind_res (CDDR x) (\<lambda>s. Inr (Rf_isNull s)))"

definition f_rhs :: "sexp \<Rightarrow> error + sexp" where
  "f_rhs f =
     bind_res (is_formula f) (\<lambda>b.
       if \<not> b then Inl NotAFormulaError
       else bind_res (Rf_length f) (\<lambda>n.
         if n = 2 then CADR f
         else if n = 3 then CADDR f
         else Inl MalformedFormulaError))"

definition f_lhs :: "sexp \<Rightarrow> error + sexp" where
  "f_lhs f =
     bind_res (is_formula f) (\<lambda>b.
       if \<not> b then Inl NotAFormulaError
       else bind_res (Rf_length f) (\<lambda>n.
         if n = 2 then Inr Nil
         else if n = 3 then CADR f
         else Inl MalformedFormulaError))"

definition f_env :: "sexp \<Rightarrow> error + sexp" where
  "f_env f =
     bind_res (is_formula f) (\<lambda>b.
       if \<not> b then Inl NotAFormulaError
       else Inr (Rf_getAttrib f (Rf_install ''.Environment'')))"

text \<open>
  \<^verbatim>\<open>make_formula1\<close> builds the call and then writes two attributes on it in place;
  the model threads the node through the two writes.
\<close>

definition make_formula1 :: "sexp \<Rightarrow> sexp \<Rightarrow> error + sexp" where
  "make_formula1 rhs env =
     (let f = Rf_lang2 (Rf_install ''~'') rhs in
      bind_res (Rf_setAttrib f R_ClassSymbol (Rf_mkString ''formula'')) (\<lambda>f.
      bind_res (Rf_setAttrib f (Rf_install ''.Environment'') env) (\<lambda>f.
      Inr f)))"

text \<open>
  The source names the three accessors \<^verbatim>\<open>f_rhs_\<close>, \<^verbatim>\<open>f_lhs_\<close> and \<^verbatim>\<open>f_env_\<close>; a
  constant's name cannot end in an underscore here.
\<close>

section \<open>Node classifier\<close>

definition is_atomic :: "sexp \<Rightarrow> bool" where
  "is_atomic x =
     (TYPEOF x = LGLSXP \<or> TYPEOF x = INTSXP \<or> TYPEOF x = REALSXP
      \<or> TYPEOF x = CPLXSXP \<or> TYPEOF x = STRSXP \<or> TYPEOF x = RAWSXP)"

definition is_list :: "sexp \<Rightarrow> bool" where
  "is_list x = (TYPEOF x = VECSXP)"

definition is_vector :: "sexp \<Rightarrow> bool" where
  "is_vector x =
     (TYPEOF x = LGLSXP \<or> TYPEOF x = INTSXP \<or> TYPEOF x = REALSXP
      \<or> TYPEOF x = CPLXSXP \<or> TYPEOF x = STRSXP \<or> TYPEOF x = RAWSXP
      \<or> TYPEOF x = VECSXP)"

section \<open>Attribute helper\<close>

definition is_character :: "sexp \<Rightarrow> bool" where
  "is_character x = (TYPEOF x = STRSXP)"

text \<open>\<open>R_CHAR\<close> is the host's \<^verbatim>\<open>CHAR\<close>: it reads the C string of a \<^verbatim>\<open>CHARSXP\<close>.\<close>

fun R_CHAR :: "sexp \<Rightarrow> error + string" where
  "R_CHAR (Chr s) = Inr s"
| "R_CHAR _ = Inl HostFault"

text \<open>
  \<^verbatim>\<open>STRING_ELT\<close> reads element \<open>i\<close> of a character vector; \<^verbatim>\<open>R_len_t\<close> is a C
  \<^verbatim>\<open>int\<close>, and a read outside \<open>0 \<le> i < length\<close> is a \<open>HostFault\<close>.
\<close>

fun STRING_ELT :: "sexp \<Rightarrow> int \<Rightarrow> error + sexp" where
  "STRING_ELT (Str ss at) i =
     (if 0 \<le> i \<and> nat i < length ss then Inr (Chr (ss ! nat i)) else Inl HostFault)"
| "STRING_ELT _ i = Inl HostFault"

definition is_str_empty :: "sexp \<Rightarrow> error + bool" where
  "is_str_empty str = bind_res (R_CHAR str) (\<lambda>c_str. Inr (c_str = []))"

definition names :: "sexp \<Rightarrow> sexp" where
  "names x = Rf_getAttrib x R_NamesSymbol"

definition has_name_at :: "sexp \<Rightarrow> int \<Rightarrow> error + bool" where
  "has_name_at x i =
     (let nms = names x in
      if \<not> is_character nms then Inr False
      else bind_res (STRING_ELT nms i) (\<lambda>s.
           bind_res (is_str_empty s) (\<lambda>e. Inr (\<not> e))))"

definition set_names :: "sexp \<Rightarrow> sexp \<Rightarrow> error + sexp" where
  "set_names x nms = Rf_setAttrib x R_NamesSymbol nms"

section \<open>Boolean coercion\<close>

text \<open>
  \<^verbatim>\<open>NA_LOGICAL\<close> is the host's missing logical, the least C \<^verbatim>\<open>int\<close>;
  \<^verbatim>\<open>LOGICAL(x)[i]\<close> reads element \<open>i\<close> of a logical vector.
\<close>

definition NA_LOGICAL :: int where
  "NA_LOGICAL = - 2147483648"

fun LOGICAL :: "sexp \<Rightarrow> nat \<Rightarrow> error + int" where
  "LOGICAL (Lgl vs at) i = (if i < length vs then Inr (vs ! i) else Inl HostFault)"
| "LOGICAL _ i = Inl HostFault"

definition is_true :: "sexp \<Rightarrow> error + int" where
  "is_true x =
     (if TYPEOF x \<noteq> LGLSXP then Inl TypeError
      else bind_res (Rf_length x) (\<lambda>n.
        if n \<noteq> 1 then Inl TypeError
        else bind_res (LOGICAL x 0) (\<lambda>v.
          Inr (if v = NA_LOGICAL then 0 else v))))"

section \<open>Call pattern matcher\<close>

definition is_lang :: "sexp \<Rightarrow> string \<Rightarrow> error + bool" where
  "is_lang x f =
     (if is_symbolic x = 0 \<and> TYPEOF x \<noteq> LISTSXP then Inr False
      else bind_res (CAR x) (\<lambda>fn. Inr (is_sym fn f \<noteq> 0)))"

text \<open>
  A recognizer is a C function \<^verbatim>\<open>int (*)(SEXP)\<close>. \<^verbatim>\<open>is_prefixed_call\<close> and
  \<^verbatim>\<open>is_rlang_prefixed\<close> accept the null pointer for it (\<open>None\<close>); \<^verbatim>\<open>is_any_call\<close>
  and \<^verbatim>\<open>is_rlang_call\<close> call it at once, so they take a function. The results are
  C \<^verbatim>\<open>int\<close>s: \<open>0\<close> is false, and \<^verbatim>\<open>||\<close> yields \<open>0\<close> or \<open>1\<close>.
\<close>

definition is_prefixed_call :: "sexp \<Rightarrow> (sexp \<Rightarrow> int) option \<Rightarrow> error + int" where
  "is_prefixed_call x sym_predicate =
     (if TYPEOF x \<noteq> LANGSXP then Inr 0
      else bind_res (CAR x) (\<lambda>head.
        bind_res (or_else (is_lang head ''$'')
                 (or_else (is_lang head ''@'')
                 (or_else (is_lang head ''::'')
                          (is_lang head '':::'')))) (\<lambda>q.
          if \<not> q then Inr 0
          else (case sym_predicate of
                  None \<Rightarrow> Inr 1
                | Some p \<Rightarrow>
                    bind_res (CDAR x) (\<lambda>args.
                    bind_res (CADR args) (\<lambda>sym.
                    Inr (p sym)))))))"

definition is_any_call :: "sexp \<Rightarrow> (sexp \<Rightarrow> int) \<Rightarrow> error + int" where
  "is_any_call x sym_predicate =
     (if TYPEOF x \<noteq> LANGSXP then Inr 0
      else bind_res (CAR x) (\<lambda>head.
        if sym_predicate head \<noteq> 0 then Inr 1
        else bind_res (is_prefixed_call x (Some sym_predicate)) (\<lambda>r.
          Inr (if r \<noteq> 0 then 1 else 0))))"

definition is_rlang_prefixed :: "sexp \<Rightarrow> (sexp \<Rightarrow> int) option \<Rightarrow> error + int" where
  "is_rlang_prefixed x sym_predicate =
     (if TYPEOF x \<noteq> LANGSXP then Inr 0
      else bind_res (CAR x) (\<lambda>head.
        bind_res (is_lang head ''::'') (\<lambda>q.
          if \<not> q then Inr 0
          else bind_res (CDAR x) (\<lambda>args.
               bind_res (CAR args) (\<lambda>ns_sym.
                 if is_sym ns_sym ''rlang'' = 0 then Inr 0
                 else (case sym_predicate of
                         Some p \<Rightarrow> bind_res (CADR args) (\<lambda>sym. Inr (p sym))
                       | None \<Rightarrow> Inr 1))))))"

definition is_rlang_call :: "sexp \<Rightarrow> (sexp \<Rightarrow> int) \<Rightarrow> error + int" where
  "is_rlang_call x sym_predicate =
     (if TYPEOF x \<noteq> LANGSXP then Inr 0
      else bind_res (CAR x) (\<lambda>head.
        if sym_predicate head \<noteq> 0 then Inr 1
        else bind_res (is_rlang_prefixed x (Some sym_predicate)) (\<lambda>r.
          Inr (if r \<noteq> 0 then 1 else 0))))"

section \<open>Well-formed trees\<close>

text \<open>
  The host builds every argument list as a chain of cons cells that ends in
  \<^verbatim>\<open>R_NilValue\<close>. A tree is \<open>proper\<close> when every cdr reached through cars and cdrs
  is \<^verbatim>\<open>R_NilValue\<close> or a cons cell.
\<close>

fun is_cell :: "sexp \<Rightarrow> bool" where
  "is_cell Nil = True"
| "is_cell (Cons k a d at) = True"
| "is_cell _ = False"

fun proper :: "sexp \<Rightarrow> bool" where
  "proper (Cons k a d at) = (proper a \<and> is_cell d \<and> proper d)"
| "proper _ = True"

section \<open>A recognizer for the examples\<close>

text \<open>
  A recognizer as a caller of the matcher writes it:
  \<^verbatim>\<open>int is_sym_b(SEXP s) { return is_sym(s, "b"); }\<close>. It accepts the symbol \<open>b\<close>
  and nothing else. The source's own \<^verbatim>\<open>is_symbolic\<close> has the type of a recognizer
  too, and accepts every symbol and every call.
\<close>

definition is_sym_b :: "sexp \<Rightarrow> int" where
  "is_sym_b s = is_sym s ''b''"

section \<open>Properties\<close>

subsection \<open>Shapes behind the type tags\<close>

lemma TYPEOF_LANGSXP: "TYPEOF x = LANGSXP \<longleftrightarrow> (\<exists>a d at. x = Cons LANG a d at)"
  by (cases x rule: TYPEOF.cases) auto

lemma TYPEOF_SYMSXP: "TYPEOF x = SYMSXP \<longleftrightarrow> (\<exists>n. x = Sym n)"
  by (cases x rule: TYPEOF.cases) auto

lemma TYPEOF_LGLSXP: "TYPEOF x = LGLSXP \<longleftrightarrow> (\<exists>vs at. x = Lgl vs at)"
  by (cases x rule: TYPEOF.cases) auto

lemma Rf_isNull_iff: "Rf_isNull s \<longleftrightarrow> s = Nil"
  unfolding Rf_isNull_def by (cases s rule: TYPEOF.cases) auto

lemma CDR_eq_Nil: "CDR d = Inr Nil \<longleftrightarrow> d = Nil \<or> (\<exists>k a at. d = Cons k a Nil at)"
  by (cases d rule: TYPEOF.cases) auto

lemma is_sym_iff: "is_sym s n \<noteq> 0 \<longleftrightarrow> s = Sym n"
  by (cases s rule: TYPEOF.cases) auto

lemma is_sym_b_iff: "is_sym_b s \<noteq> 0 \<longleftrightarrow> s = Sym ''b''"
  by (simp add: is_sym_b_def is_sym_iff)

lemma or_else_Inr: "or_else (Inr a) (Inr b) = Inr (a \<or> b)"
  by (simp add: or_else_def bind_res_def)

text \<open>
  \<^verbatim>\<open>is_lang\<close> never faults: its guard lets through cons cells and symbols only, and
  \<^verbatim>\<open>CAR\<close> is defined on both. It holds of the cons cells whose car is the symbol.
\<close>

lemma is_lang_Cons_Sym: "is_lang (Cons k (Sym q) d at) f = Inr (q = f)"
  by (cases k) (simp_all add: is_lang_def is_symbolic_def bind_res_def)

lemma is_lang_Sym: "is_lang (Sym n) f = Inr False"
  by (simp add: is_lang_def is_symbolic_def bind_res_def)

lemma is_lang_total: "\<exists>b. is_lang x f = Inr b"
  by (cases x rule: TYPEOF.cases) (auto simp add: is_lang_def is_symbolic_def bind_res_def)

lemma is_lang_True: "is_lang x f = Inr True \<longleftrightarrow> (\<exists>k d at. x = Cons k (Sym f) d at)"
  apply (cases x rule: TYPEOF.cases)
  apply (auto simp add: is_lang_def is_symbolic_def bind_res_def split: if_splits)
  subgoal for a d at by (cases a) (auto split: if_splits)
  subgoal for a d at by (cases a) (auto split: if_splits)
  done

lemma is_lang_eq: "is_lang x f = Inr (\<exists>k d at. x = Cons k (Sym f) d at)"
proof -
  obtain b where b: "is_lang x f = Inr b"
    using is_lang_total by blast
  then have "b \<longleftrightarrow> (\<exists>k d at. x = Cons k (Sym f) d at)"
    using is_lang_True [of x f] by simp
  with b show ?thesis by simp
qed

lemma is_qualifier_iff:
  "or_else (is_lang head ''$'') (or_else (is_lang head ''@'')
     (or_else (is_lang head ''::'') (is_lang head '':::'')))
   = Inr (\<exists>k q d at. head = Cons k (Sym q) d at
            \<and> (q = ''$'' \<or> q = ''@'' \<or> q = ''::'' \<or> q = '':::''))"
  unfolding is_lang_eq or_else_Inr by auto

lemma is_formula_True:
  "is_formula f = Inr True \<longleftrightarrow> (\<exists>h d at. f = Cons LANG (Sym h) d at \<and> (h = ''~'' \<or> h = '':=''))"
  apply (cases f rule: TYPEOF.cases)
  apply (auto simp add: is_formula_def bind_res_def TYPEOF_SYMSXP split: if_splits)
  done

lemma is_cell_CAR: "is_cell d \<Longrightarrow> \<exists>v. CAR d = Inr v"
  by (cases d rule: TYPEOF.cases) auto

lemma proper_CADR: "is_cell d \<Longrightarrow> proper d \<Longrightarrow> \<exists>v. CADR d = Inr v"
  by (cases d rule: TYPEOF.cases) (auto simp: CADR_def bind_res_def is_cell_CAR)

subsection \<open>Formula engine\<close>

lemma make_formula1_shape:
  "make_formula1 e sc =
     Inr (Cons LANG (Sym ''~'') (Cons LIST e Nil [])
       [(Sym ''class'', Str [''formula''] []), (Sym ''.Environment'', sc)])"
  by (simp add: make_formula1_def Rf_lang2_def Rf_install_def Rf_mkString_def
      R_ClassSymbol_def bind_res_def)

text \<open>
  C1. Round trip through the one-sided formula constructor: for every expression
  \<open>e\<close> and scope reference \<open>sc\<close>, \<^verbatim>\<open>make_formula1\<close> returns a node \<open>f\<close> on which
  \<^verbatim>\<open>f_rhs_\<close> returns \<open>e\<close>, \<^verbatim>\<open>f_lhs_\<close> returns \<^verbatim>\<open>R_NilValue\<close>, \<^verbatim>\<open>f_env_\<close> returns
  \<open>sc\<close> and \<^verbatim>\<open>is_fpromise\<close> is true.
\<close>

theorem make_formula1_round_trip:
  "\<exists>f. make_formula1 e sc = Inr f \<and> f_rhs f = Inr e \<and> f_lhs f = Inr Nil
     \<and> f_env f = Inr sc \<and> is_fpromise f = Inr True"
  by (simp add: make_formula1_shape f_rhs_def f_lhs_def f_env_def is_fpromise_def
      is_formula_def bind_res_def CADR_def CDDR_def Rf_isNull_def Rf_getAttrib_def
      Rf_install_def)

text \<open>
  C2. For every formula node \<open>f\<close> (a call whose head is the symbol \<open>~\<close> or \<open>:=\<close>):
  with exactly one trailing operand, \<^verbatim>\<open>f_rhs_\<close> returns that operand and \<^verbatim>\<open>f_lhs_\<close>
  returns \<^verbatim>\<open>R_NilValue\<close>; with exactly two, \<^verbatim>\<open>f_rhs_\<close> returns the second and
  \<^verbatim>\<open>f_lhs_\<close> the first; with \<open>n\<close> trailing operands, \<open>n = 0\<close> or \<open>n \<ge> 3\<close> (the length
  of the call is \<open>n + 1\<close>), both fail with \<open>MalformedFormulaError\<close>.
\<close>

theorem f_rhs_f_lhs_dispatch:
  assumes "is_formula f = Inr True"
  shows "(\<forall>k a at. CDR f = Inr (Cons k a Nil at) \<longrightarrow> f_rhs f = Inr a \<and> f_lhs f = Inr Nil)
       \<and> (\<forall>k a at k' b at'. CDR f = Inr (Cons k a (Cons k' b Nil at') at)
            \<longrightarrow> f_rhs f = Inr b \<and> f_lhs f = Inr a)
       \<and> (\<forall>n. Rf_length f = Inr (Suc n) \<and> (n = 0 \<or> 3 \<le> n)
            \<longrightarrow> f_rhs f = Inl MalformedFormulaError \<and> f_lhs f = Inl MalformedFormulaError)"
proof -
  from assms obtain h d at where f: "f = Cons LANG (Sym h) d at"
    by (auto simp: is_formula_True)
  show ?thesis
    using assms unfolding f
    by (auto simp: f_rhs_def f_lhs_def bind_res_def CADR_def CADDR_def CDDR_def)
qed

theorem f_rhs_f_lhs_dispatch_witness:
  "is_formula (Cons LANG (Sym ''~'') (Cons LIST (Sym ''y'') Nil []) []) = Inr True
   \<and> f_rhs (Cons LANG (Sym ''~'') (Cons LIST (Sym ''y'') Nil []) []) = Inr (Sym ''y'')
   \<and> f_lhs (Cons LANG (Sym ''~'') (Cons LIST (Sym ''y'') Nil []) []) = Inr Nil
   \<and> is_formula (Cons LANG (Sym '':='') (Cons LIST (Sym ''x'') (Cons LIST (Sym ''y'') Nil []) []) [])
       = Inr True
   \<and> f_rhs (Cons LANG (Sym '':='') (Cons LIST (Sym ''x'') (Cons LIST (Sym ''y'') Nil []) []) [])
       = Inr (Sym ''y'')
   \<and> f_lhs (Cons LANG (Sym '':='') (Cons LIST (Sym ''x'') (Cons LIST (Sym ''y'') Nil []) []) [])
       = Inr (Sym ''x'')
   \<and> is_formula (Cons LANG (Sym ''~'') Nil []) = Inr True
   \<and> Rf_length (Cons LANG (Sym ''~'') Nil []) = Inr (Suc 0)
   \<and> f_rhs (Cons LANG (Sym ''~'') Nil []) = Inl MalformedFormulaError
   \<and> f_lhs (Cons LANG (Sym ''~'') Nil []) = Inl MalformedFormulaError"
proof -
  have h1: "is_formula (Cons LANG (Sym ''~'') (Cons LIST (Sym ''y'') Nil []) []) = Inr True"
    by (simp add: is_formula_def bind_res_def)
  have h2: "is_formula (Cons LANG (Sym '':='')
      (Cons LIST (Sym ''x'') (Cons LIST (Sym ''y'') Nil []) []) []) = Inr True"
    by (simp add: is_formula_def bind_res_def)
  have h3: "is_formula (Cons LANG (Sym ''~'') Nil []) = Inr True"
    by (simp add: is_formula_def bind_res_def)
  have l3: "Rf_length (Cons LANG (Sym ''~'') Nil []) = Inr (Suc 0)"
    by (simp add: bind_res_def)
  show ?thesis
    using f_rhs_f_lhs_dispatch [OF h1] f_rhs_f_lhs_dispatch [OF h2]
      f_rhs_f_lhs_dispatch [OF h3] h1 h2 h3 l3
    by simp
qed

text \<open>
  C3. \<^verbatim>\<open>is_fpromise\<close> on the call of \<open>~\<close> with no operand at all: the node has
  length 1, its cdr is \<^verbatim>\<open>R_NilValue\<close>, and so is the cdr of that; \<^verbatim>\<open>is_fpromise\<close>
  answers true, while \<^verbatim>\<open>f_rhs_\<close> and \<^verbatim>\<open>f_lhs_\<close> reject the same node as an invalid
  formula.
\<close>

theorem is_fpromise_no_operand:
  "Rf_length (Cons LANG (Sym ''~'') Nil []) = Inr 1
   \<and> CDR (Cons LANG (Sym ''~'') Nil []) = Inr Nil
   \<and> is_fpromise (Cons LANG (Sym ''~'') Nil []) = Inr True
   \<and> f_rhs (Cons LANG (Sym ''~'') Nil []) = Inl MalformedFormulaError
   \<and> f_lhs (Cons LANG (Sym ''~'') Nil []) = Inl MalformedFormulaError"
  by (simp add: is_fpromise_def is_formula_def f_rhs_def f_lhs_def bind_res_def CDDR_def
      Rf_isNull_def)

text \<open>
  What \<^verbatim>\<open>is_fpromise\<close> decides: a formula with at most one trailing operand.
\<close>

lemma is_fpromise_eq:
  "is_fpromise x = Inr True \<longleftrightarrow>
     is_formula x = Inr True \<and> (CDR x = Inr Nil \<or> (\<exists>k a at. CDR x = Inr (Cons k a Nil at)))"
proof (cases "is_formula x = Inr True")
  case True
  then obtain h d at where x: "x = Cons LANG (Sym h) d at"
    by (auto simp: is_formula_True)
  have "is_fpromise x = Inr True \<longleftrightarrow> CDR d = Inr Nil"
    using True by (cases "CDR d") (simp_all add: is_fpromise_def bind_res_def CDDR_def x Rf_isNull_iff)
  then show ?thesis
    using True by (simp add: x CDR_eq_Nil)
next
  case False
  then show ?thesis
    by (auto simp: is_fpromise_def bind_res_def split: sum.splits)
qed

subsection \<open>Call pattern matcher\<close>

text \<open>
  C4. Qualified-call recognition keys off the second sub-argument of the qualifying
  head, not the namespace: for a recognizer \<open>r\<close> that accepts exactly the symbol \<open>b\<close>,
  and \<open>a \<noteq> b\<close>, \<^verbatim>\<open>is_any_call\<close> is false on a call whose head is \<open>pkg::a\<close> and true
  on a call whose head is \<open>pkg::b\<close>, whatever the namespace \<open>pkg\<close> and the arguments of
  the call.
\<close>

theorem is_any_call_second_sub_argument:
  assumes "\<forall>s. (r s \<noteq> 0) = (s = Sym b)" and "a \<noteq> b"
  shows "is_any_call
           (Cons LANG (Cons k1 (Sym ''::'') (Cons k2 (Sym pkg) (Cons k3 (Sym a) Nil at3) at2) at1)
              rest at0) r = Inr 0
       \<and> is_any_call
           (Cons LANG (Cons k1 (Sym ''::'') (Cons k2 (Sym pkg) (Cons k3 (Sym b) Nil at3) at2) at1)
              rest at0) r = Inr 1"
proof -
  have head: "r (Cons k1 (Sym ''::'') d at1) = 0" for d
    using assms(1) by auto
  have "r (Sym a) = 0" "r (Sym b) \<noteq> 0"
    using assms by auto
  then show ?thesis
    by (simp add: is_any_call_def is_prefixed_call_def bind_res_def or_else_def
        is_lang_Cons_Sym head CDAR_def CADR_def)
qed

theorem is_any_call_second_sub_argument_witness:
  "is_any_call
     (Cons LANG (Cons LANG (Sym ''::'') (Cons LIST (Sym ''pkg'') (Cons LIST (Sym ''a'') Nil []) []) [])
        Nil []) is_sym_b = Inr 0
   \<and> is_any_call
     (Cons LANG (Cons LANG (Sym ''::'') (Cons LIST (Sym ''pkg'') (Cons LIST (Sym ''b'') Nil []) []) [])
        Nil []) is_sym_b = Inr 1"
proof -
  have h: "\<forall>s. (is_sym_b s \<noteq> 0) = (s = Sym ''b'')"
    by (simp add: is_sym_b_iff)
  have n: "''a'' \<noteq> ''b''" by simp
  show ?thesis
    using is_any_call_second_sub_argument [OF h n] by blast
qed

text \<open>
  C5, as stated, fails: \<^verbatim>\<open>is_rlang_call\<close> asks the recognizer about the head of the
  call before it looks at the namespace. With the source's \<^verbatim>\<open>is_symbolic\<close> as the
  recognizer, which accepts the symbol \<open>foo\<close> and also the call \<open>pkg::foo\<close> itself, the
  call \<open>pkg::foo()\<close> is matched although its namespace is not \<open>rlang\<close>.
\<close>

theorem is_rlang_call_accepting_head_counterexample:
  "is_symbolic (Sym ''foo'') \<noteq> 0
   \<and> is_rlang_call
       (Cons LANG (Cons LANG (Sym ''::'') (Cons LIST (Sym ''pkg'') (Cons LIST (Sym ''foo'') Nil []) []) [])
          Nil []) is_symbolic = Inr 1"
  by (simp add: is_rlang_call_def is_symbolic_def bind_res_def)

text \<open>
  C5, amended. Take a call whose head is not a call of \<open>::\<close> (it is unqualified, or
  qualified by \<open>$\<close>, \<open>@\<close> or \<open>:::\<close>), or whose head has a symbol other than \<open>rlang\<close> as
  its left operand. For every recognizer, \<^verbatim>\<open>is_rlang_prefixed\<close> is false on it, even
  when the right-hand symbol satisfies the recognizer, and \<^verbatim>\<open>is_rlang_call\<close> is true
  exactly when the recognizer accepts the head node itself. So \<^verbatim>\<open>is_rlang_call\<close>
  rejects such a qualified call for every recognizer that rejects the qualifying
  call node, and on an unqualified call it is true exactly when the recognizer
  accepts the bare head.
\<close>

theorem is_rlang_call_namespace:
  assumes "is_lang head ''::'' = Inr False
           \<or> (\<exists>k l d at'. CDR head = Inr (Cons k (Sym l) d at') \<and> l \<noteq> ''rlang'')"
  shows "is_rlang_prefixed (Cons LANG head rest at) p = Inr 0
       \<and> is_rlang_call (Cons LANG head rest at) r = Inr (if r head \<noteq> 0 then 1 else 0)"
proof -
  have pre: "is_rlang_prefixed (Cons LANG head rest at) p = Inr 0" for p
  proof (cases "is_lang head ''::'' = Inr False")
    case True
    then show ?thesis
      by (simp add: is_rlang_prefixed_def bind_res_def)
  next
    case False
    with assms obtain k l d at' where d: "CDR head = Inr (Cons k (Sym l) d at')" "l \<noteq> ''rlang''"
      by auto
    obtain b where b: "is_lang head ''::'' = Inr b"
      using is_lang_total by blast
    from d obtain k0 a0 at0 where h: "head = Cons k0 a0 (Cons k (Sym l) d at') at0"
      by (cases head rule: TYPEOF.cases) auto
    show ?thesis
      using d b by (simp add: is_rlang_prefixed_def bind_res_def CDAR_def h)
  qed
  show ?thesis
    by (simp add: pre is_rlang_call_def bind_res_def)
qed

theorem is_rlang_call_namespace_witness:
  "is_sym_b (Sym ''b'') \<noteq> 0
   \<and> is_rlang_call
       (Cons LANG (Cons LANG (Sym ''::'') (Cons LIST (Sym ''pkg'') (Cons LIST (Sym ''b'') Nil []) []) [])
          Nil []) is_sym_b = Inr 0
   \<and> is_rlang_call
       (Cons LANG (Cons LANG (Sym ''$'') (Cons LIST (Sym ''rlang'') (Cons LIST (Sym ''b'') Nil []) []) [])
          Nil []) is_sym_b = Inr 0
   \<and> is_rlang_call (Cons LANG (Sym ''b'') Nil []) is_sym_b = Inr 1
   \<and> is_rlang_call (Cons LANG (Sym ''a'') Nil []) is_sym_b = Inr 0"
proof -
  have h1: "is_lang (Cons LANG (Sym ''::'') (Cons LIST (Sym ''pkg'') (Cons LIST (Sym ''b'') Nil []) []) []) ''::''
              = Inr False
            \<or> (\<exists>k l d at'. CDR (Cons LANG (Sym ''::'') (Cons LIST (Sym ''pkg'') (Cons LIST (Sym ''b'') Nil []) []) [])
                 = Inr (Cons k (Sym l) d at') \<and> l \<noteq> ''rlang'')"
    by simp
  have h2: "is_lang (Cons LANG (Sym ''$'') (Cons LIST (Sym ''rlang'') (Cons LIST (Sym ''b'') Nil []) []) []) ''::''
              = Inr False
            \<or> (\<exists>k l d at'. CDR (Cons LANG (Sym ''$'') (Cons LIST (Sym ''rlang'') (Cons LIST (Sym ''b'') Nil []) []) [])
                 = Inr (Cons k (Sym l) d at') \<and> l \<noteq> ''rlang'')"
    by (simp add: is_lang_Cons_Sym)
  have h3: "is_lang (Sym n) ''::'' = Inr False
            \<or> (\<exists>k l d at'. CDR (Sym n) = Inr (Cons k (Sym l) d at') \<and> l \<noteq> ''rlang'')" for n
    by (simp add: is_lang_Sym)
  show ?thesis
    using is_rlang_call_namespace [OF h1, of Nil "[]" None is_sym_b]
      is_rlang_call_namespace [OF h2, of Nil "[]" None is_sym_b]
      is_rlang_call_namespace [OF h3, of "''b''" Nil "[]" None is_sym_b]
      is_rlang_call_namespace [OF h3, of "''a''" Nil "[]" None is_sym_b]
    by (simp add: is_sym_b_def)
qed

text \<open>
  On a proper tree the two prefix matchers return: once the head is a qualifying
  call, its argument chain is \<^verbatim>\<open>R_NilValue\<close> or a cons cell, and so is the cdr of
  that, which is all that \<^verbatim>\<open>CDAR\<close>, \<^verbatim>\<open>CAR\<close> and \<^verbatim>\<open>CADR\<close> read.
\<close>

lemma is_prefixed_call_returns:
  assumes "proper x"
  shows "\<exists>n. is_prefixed_call x p = Inr n"
proof (cases "TYPEOF x = LANGSXP")
  case False
  then show ?thesis by (simp add: is_prefixed_call_def)
next
  case True
  then obtain head rest at where x: "x = Cons LANG head rest at"
    by (auto simp: TYPEOF_LANGSXP)
  show ?thesis
  proof (cases "\<exists>k q d at. head = Cons k (Sym q) d at
            \<and> (q = ''$'' \<or> q = ''@'' \<or> q = ''::'' \<or> q = '':::'')")
    case False
    then show ?thesis
      by (simp add: is_prefixed_call_def x bind_res_def is_qualifier_iff)
  next
    case True
    then obtain k f d at1 where h: "head = Cons k (Sym f) d at1"
      by auto
    with assms x have "is_cell d" "proper d" by auto
    then obtain v where "CADR d = Inr v"
      using proper_CADR by blast
    with True show ?thesis
      by (cases p) (simp_all add: is_prefixed_call_def x bind_res_def is_qualifier_iff CDAR_def h)
  qed
qed

lemma is_rlang_prefixed_returns:
  assumes "proper x"
  shows "\<exists>n. is_rlang_prefixed x p = Inr n"
proof (cases "TYPEOF x = LANGSXP")
  case False
  then show ?thesis by (simp add: is_rlang_prefixed_def)
next
  case True
  then obtain head rest at where x: "x = Cons LANG head rest at"
    by (auto simp: TYPEOF_LANGSXP)
  obtain q where q: "is_lang head ''::'' = Inr q"
    using is_lang_total by blast
  show ?thesis
  proof (cases q)
    case False
    with q show ?thesis by (simp add: is_rlang_prefixed_def x bind_res_def)
  next
    case True
    with q obtain k d at1 where h: "head = Cons k (Sym ''::'') d at1"
      by (auto simp: is_lang_True)
    with assms x have "is_cell d" "proper d" by auto
    then obtain v w where "CADR d = Inr v" "CAR d = Inr w"
      using proper_CADR is_cell_CAR by blast
    with q True show ?thesis
      by (cases p) (simp_all add: is_rlang_prefixed_def x h bind_res_def CDAR_def)
  qed
qed

text \<open>
  C7. The call matchers are total boolean queries. \<^verbatim>\<open>is_lang\<close> (is the node a call
  of the given name) is false on every node that is neither a call nor a pairlist,
  the two shapes that the spec's \<open>Call\<close> covers; \<^verbatim>\<open>is_prefixed_call\<close> (with or without
  a recognizer), \<^verbatim>\<open>is_any_call\<close> and \<^verbatim>\<open>is_rlang_call\<close> are false on every node that is
  not a call. On every well-formed (proper) tree each of them returns a value:
  none raises an error or reads a slot that the node does not have.
\<close>

theorem matchers_total:
  "(TYPEOF x \<noteq> LANGSXP \<and> TYPEOF x \<noteq> LISTSXP \<longrightarrow> is_lang x f = Inr False)
   \<and> (TYPEOF x \<noteq> LANGSXP \<longrightarrow>
        is_prefixed_call x p = Inr 0 \<and> is_any_call x r = Inr 0 \<and> is_rlang_call x r = Inr 0)
   \<and> (proper x \<longrightarrow>
        (\<exists>b. is_lang x f = Inr b) \<and> (\<exists>n. is_prefixed_call x p = Inr n)
        \<and> (\<exists>n. is_any_call x r = Inr n) \<and> (\<exists>n. is_rlang_call x r = Inr n))"
proof -
  have a: "is_lang x f = Inr False" if "TYPEOF x \<noteq> LANGSXP" "TYPEOF x \<noteq> LISTSXP"
    using that by (cases x rule: TYPEOF.cases) (simp_all add: is_lang_def is_symbolic_def bind_res_def)
  have b: "is_prefixed_call x p = Inr 0 \<and> is_any_call x r = Inr 0 \<and> is_rlang_call x r = Inr 0"
    if "TYPEOF x \<noteq> LANGSXP"
    using that by (simp add: is_prefixed_call_def is_any_call_def is_rlang_call_def)
  have c: "\<exists>n. is_any_call x r = Inr n" if px: "proper x"
  proof -
    obtain n where "is_prefixed_call x (Some r) = Inr n"
      using is_prefixed_call_returns [OF px] by blast
    then show ?thesis
      by (cases x rule: TYPEOF.cases) (simp_all add: is_any_call_def bind_res_def)
  qed
  have d: "\<exists>n. is_rlang_call x r = Inr n" if px: "proper x"
  proof -
    obtain n where "is_rlang_prefixed x (Some r) = Inr n"
      using is_rlang_prefixed_returns [OF px] by blast
    then show ?thesis
      by (cases x rule: TYPEOF.cases) (simp_all add: is_rlang_call_def bind_res_def)
  qed
  show ?thesis
    using a b c d is_lang_total is_prefixed_call_returns by blast
qed

theorem matchers_total_witness:
  "is_lang (Atom RealK 3 []) ''f'' = Inr False
   \<and> is_prefixed_call (Sym ''b'') None = Inr 0
   \<and> is_prefixed_call (Sym ''b'') (Some is_sym_b) = Inr 0
   \<and> is_any_call (Sym ''b'') is_sym_b = Inr 0
   \<and> is_rlang_call (Sym ''b'') is_sym_b = Inr 0
   \<and> proper (Cons LANG (Cons LANG (Sym ''::'') (Cons LIST (Sym ''rlang'') Nil []) []) Nil [])
   \<and> (\<exists>n. is_any_call (Cons LANG (Cons LANG (Sym ''::'') (Cons LIST (Sym ''rlang'') Nil []) []) Nil [])
             is_sym_b = Inr n)
   \<and> (\<exists>n. is_rlang_call (Cons LANG (Cons LANG (Sym ''::'') (Cons LIST (Sym ''rlang'') Nil []) []) Nil [])
             is_sym_b = Inr n)"
proof -
  have p: "proper (Cons LANG (Cons LANG (Sym ''::'') (Cons LIST (Sym ''rlang'') Nil []) []) Nil [])"
    by simp
  show ?thesis
    using matchers_total [of "Atom RealK 3 []" "''f''" None is_sym_b]
      matchers_total [of "Sym ''b''" "''f''" None is_sym_b]
      matchers_total [of "Sym ''b''" "''f''" "Some is_sym_b" is_sym_b]
      matchers_total [of "Cons LANG (Cons LANG (Sym ''::'') (Cons LIST (Sym ''rlang'') Nil []) []) Nil []"
        "''f''" None is_sym_b] p
    by simp
qed

text \<open>
  C10. For every recognizer \<open>r\<close> and every call whose head is a qualifying call (of
  \<open>$\<close>, \<open>@\<close>, \<open>::\<close> or \<open>:::\<close>) with fewer than two sub-arguments, \<^verbatim>\<open>is_prefixed_call\<close>
  reads no slot out of range and raises nothing: the second sub-argument of the
  short argument list is \<^verbatim>\<open>R_NilValue\<close>, \<open>r\<close> is applied to it, and that result is
  returned.
\<close>

theorem is_prefixed_call_short_head:
  assumes "q = ''$'' \<or> q = ''@'' \<or> q = ''::'' \<or> q = '':::''"
    and "d = Nil \<or> (\<exists>k' a at'. d = Cons k' a Nil at')"
  shows "CDAR (Cons LANG (Cons k (Sym q) d at1) rest at0) = Inr d
       \<and> CADR d = Inr Nil
       \<and> is_prefixed_call (Cons LANG (Cons k (Sym q) d at1) rest at0) (Some r) = Inr (r Nil)"
  using assms
  by (auto simp add: is_prefixed_call_def bind_res_def or_else_def is_lang_Cons_Sym
      CDAR_def CADR_def)

theorem is_prefixed_call_short_head_witness:
  "is_prefixed_call (Cons LANG (Cons LANG (Sym ''::'') (Cons LIST (Sym ''b'') Nil []) []) Nil [])
     (Some is_sym_b) = Inr (is_sym_b Nil)
   \<and> is_sym_b Nil = 0
   \<and> is_prefixed_call (Cons LANG (Cons LANG (Sym ''$'') Nil []) Nil [])
     (Some is_sym_b) = Inr (is_sym_b Nil)"
proof -
  have q1: "''::'' = ''$'' \<or> ''::'' = ''@'' \<or> ''::'' = ''::'' \<or> ''::'' = '':::''" by simp
  have q2: "''$'' = ''$'' \<or> ''$'' = ''@'' \<or> ''$'' = ''::'' \<or> ''$'' = '':::''" by simp
  have d1: "Cons LIST (Sym ''b'') Nil [] = Nil
            \<or> (\<exists>k' a at'. Cons LIST (Sym ''b'') Nil [] = Cons k' a Nil at')" by simp
  have d2: "Nil = Nil \<or> (\<exists>k' a at'. Nil = Cons k' a Nil at')" by simp
  show ?thesis
    using is_prefixed_call_short_head [OF q1 d1, of LANG "[]" Nil "[]" is_sym_b]
      is_prefixed_call_short_head [OF q2 d2, of LANG "[]" Nil "[]" is_sym_b]
    by (simp add: is_sym_b_def)
qed

subsection \<open>Boolean coercion\<close>

text \<open>
  C6. \<^verbatim>\<open>is_true\<close> fails with \<open>TypeError\<close> on every input that is not a logical
  vector of length 1, in particular on every real vector; on a logical vector of
  length 1 that holds \<^verbatim>\<open>NA_LOGICAL\<close> it returns false (0) and does not fail; on
  any other logical vector of length 1 it returns the stored value.
\<close>

theorem is_true_coercion:
  "(TYPEOF x \<noteq> LGLSXP \<or> Rf_length x \<noteq> Inr 1 \<longrightarrow> is_true x = Inl TypeError)
   \<and> (TYPEOF x = REALSXP \<longrightarrow> is_true x = Inl TypeError)
   \<and> is_true (Lgl [NA_LOGICAL] at) = Inr 0
   \<and> (v \<noteq> NA_LOGICAL \<longrightarrow> is_true (Lgl [v] at) = Inr v)"
proof -
  have "is_true x = Inl TypeError" if "TYPEOF x \<noteq> LGLSXP \<or> Rf_length x \<noteq> Inr 1"
  proof (cases "TYPEOF x = LGLSXP")
    case True
    then obtain vs a where x: "x = Lgl vs a"
      by (auto simp: TYPEOF_LGLSXP)
    with that show ?thesis
      by (simp add: is_true_def bind_res_def)
  next
    case False
    then show ?thesis
      by (simp add: is_true_def)
  qed
  then show ?thesis
    by (simp add: is_true_def bind_res_def)
qed

theorem is_true_coercion_witness:
  "TYPEOF (Atom RealK 1 []) = REALSXP
   \<and> is_true (Atom RealK 1 []) = Inl TypeError
   \<and> Rf_length (Lgl [1, 0] []) \<noteq> Inr 1
   \<and> is_true (Lgl [1, 0] []) = Inl TypeError
   \<and> is_true (Lgl [NA_LOGICAL] []) = Inr 0
   \<and> 1 \<noteq> NA_LOGICAL
   \<and> is_true (Lgl [1] []) = Inr 1
   \<and> is_true (Lgl [0] []) = Inr 0"
  using is_true_coercion [of "Atom RealK 1 []" "[]" 1]
    is_true_coercion [of "Lgl [1, 0] []" "[]" 0]
  by (simp add: NA_LOGICAL_def)

subsection \<open>Attribute helper\<close>

text \<open>
  C8. For every node \<open>x\<close> and index \<open>i\<close>: when \<^verbatim>\<open>names\<close> returns \<^verbatim>\<open>R_NilValue\<close>,
  \<^verbatim>\<open>has_name_at\<close> is false at every index; when \<^verbatim>\<open>names\<close> returns a character vector
  and \<open>i\<close> is in range, \<^verbatim>\<open>has_name_at\<close> is false if entry \<open>i\<close> is the empty string and
  true if it is a non-empty string.
\<close>

theorem has_name_at_names:
  "(names x = Nil \<longrightarrow> has_name_at x i = Inr False)
   \<and> (names x = Str ss at \<and> 0 \<le> i \<and> nat i < length ss
        \<longrightarrow> has_name_at x i = Inr (ss ! nat i \<noteq> []))"
  by (simp add: has_name_at_def is_character_def is_str_empty_def bind_res_def)

theorem has_name_at_names_witness:
  "names (Vec [Nil, Nil] []) = Nil
   \<and> has_name_at (Vec [Nil, Nil] []) 1 = Inr False
   \<and> names (Vec [Nil, Nil] [(Sym ''names'', Str [''a'', ''''] [])]) = Str [''a'', ''''] []
   \<and> has_name_at (Vec [Nil, Nil] [(Sym ''names'', Str [''a'', ''''] [])]) 0 = Inr True
   \<and> has_name_at (Vec [Nil, Nil] [(Sym ''names'', Str [''a'', ''''] [])]) 1 = Inr False"
proof -
  have n0: "names (Vec [Nil, Nil] []) = Nil"
    by (simp add: names_def Rf_getAttrib_def)
  have n1: "names (Vec [Nil, Nil] [(Sym ''names'', Str [''a'', ''''] [])]) = Str [''a'', ''''] []"
    by (simp add: names_def Rf_getAttrib_def R_NamesSymbol_def)
  show ?thesis
    using has_name_at_names [of "Vec [Nil, Nil] []" 1 "[]" "[]"]
      has_name_at_names [of "Vec [Nil, Nil] [(Sym ''names'', Str [''a'', ''''] [])]" 0 "[''a'', '''']" "[]"]
      has_name_at_names [of "Vec [Nil, Nil] [(Sym ''names'', Str [''a'', ''''] [])]" 1 "[''a'', '''']" "[]"]
      n0 n1
    by simp
qed

text \<open>
  C9, as stated for every node, fails: a symbol has length 1 and carries no
  attribute, so \<^verbatim>\<open>set_names\<close> on it with a name sequence of length 1 returns no
  node to read the names back from.
\<close>

theorem set_names_symbol_counterexample:
  "Rf_length (Str [''a''] []) = Rf_length (Sym ''s'')
   \<and> set_names (Sym ''s'') (Str [''a''] []) = Inl HostFault"
  by (simp add: set_names_def)

text \<open>
  C9, amended. Round trip of the names mapping: for every node \<open>x\<close> that can carry
  attributes (a vector, a call or a pairlist) and every \<open>nms\<close> of the length of \<open>x\<close>,
  \<^verbatim>\<open>set_names\<close> returns a node on which \<^verbatim>\<open>names\<close> returns exactly \<open>nms\<close>.
\<close>

theorem set_names_round_trip:
  assumes "is_vector x \<or> TYPEOF x = LANGSXP \<or> TYPEOF x = LISTSXP"
    and "Rf_length nms = Rf_length x"
  shows "\<exists>y. set_names x nms = Inr y \<and> names y = nms"
  using assms(1)
  by (cases x rule: TYPEOF.cases)
    (simp_all add: is_vector_def set_names_def names_def Rf_getAttrib_def update_conv')

theorem set_names_round_trip_witness:
  "\<exists>y. set_names (Vec [Nil, Nil] []) (Str [''a'', ''''] []) = Inr y \<and> names y = Str [''a'', ''''] []"
proof -
  have h1: "is_vector (Vec [Nil, Nil] []) \<or> TYPEOF (Vec [Nil, Nil] []) = LANGSXP
            \<or> TYPEOF (Vec [Nil, Nil] []) = LISTSXP"
    by (simp add: is_vector_def)
  have h2: "Rf_length (Str [''a'', ''''] []) = Rf_length (Vec [Nil, Nil] [])"
    by simp
  show ?thesis
    using set_names_round_trip [OF h1 h2] .
qed

end
